theory Spec2Isabelle
  imports Complex_Main "HOL-Library.AList" "HOL-Library.Multiset"
begin

section \<open>The Naive Bayes classifier of SentimentAnalyzer.jsx\<close>

text \<open>
  The development embeds the class \<open>NaiveBayesClassifier\<close> (lines 46 to 101 of
  \<open>src/SentimentAnalyzer.jsx\<close>): its constructor, \<open>tokenize\<close>, \<open>train\<close> and \<open>predict\<close>.

  Conventions of the embedding.
  \<^item> A JavaScript string is a \<open>string\<close>: a list of code units, each below 256 (the Latin-1
    block of Unicode). A value that may be \<open>undefined\<close> is a \<open>string option\<close>.
  \<^item> A JavaScript number is a \<open>jsnum\<close>: a real number, or one of the three special
    values of IEEE arithmetic. Finite arithmetic is exact: rounding and overflow of
    doubles are not represented, and \<open>Math.log\<close> of a positive number is \<open>ln\<close>.
  \<^item> A plain object used as a dictionary is an association list in insertion order (the
    order of \<open>Object.values\<close>). Its own properties are the entries of the list; a read of
    a missing key falls through to \<open>Object.prototype\<close>, as it does in JavaScript.
  \<^item> The \<open>Set\<close> held in \<open>vocab\<close> is the list of its elements in insertion order.
\<close>

subsection \<open>Characters\<close>

definition code_unit :: "char \<Rightarrow> nat" where
  "code_unit c = of_char c"

text \<open>\<open>[A-Za-z0-9_]\<close>, the class \<open>\w\<close> of a regular expression without the unicode flag.\<close>

definition is_word_char :: "char \<Rightarrow> bool" where
  "is_word_char c =
     (let n = code_unit c
      in (48 \<le> n \<and> n \<le> 57) \<or> (65 \<le> n \<and> n \<le> 90) \<or> n = 95 \<or> (97 \<le> n \<and> n \<le> 122))"

text \<open>
  The class \<open>\s\<close> below 256: tab, line feed, vertical tab, form feed, carriage return,
  space and the no-break space U+00A0.
\<close>

definition is_space_char :: "char \<Rightarrow> bool" where
  "is_space_char c =
     (let n = code_unit c in (9 \<le> n \<and> n \<le> 13) \<or> n = 32 \<or> n = 160)"

text \<open>
  \<open>String.prototype.toLowerCase\<close> on one code unit below 256: \<open>A\<close> to \<open>Z\<close> and the
  capital letters U+00C0 to U+00DE (the multiplication sign U+00D7 apart) move up by 32.
\<close>

definition toLowerCase_char :: "char \<Rightarrow> char" where
  "toLowerCase_char c =
     (let n = code_unit c
      in if (65 \<le> n \<and> n \<le> 90) \<or> (192 \<le> n \<and> n \<le> 222 \<and> n \<noteq> 215)
         then char_of (n + 32) else c)"

definition toLowerCase :: "string \<Rightarrow> string" where
  "toLowerCase s = map toLowerCase_char s"

subsection \<open>tokenize\<close>

text \<open>\<open>s.replace(/[^\w\s]/g, '')\<close>: every character outside \<open>\w\<close> and \<open>\s\<close> is deleted.\<close>

definition strip_non_word :: "string \<Rightarrow> string" where
  "strip_non_word s = filter (\<lambda>c. is_word_char c \<or> is_space_char c) s"

text \<open>
  \<open>s.split(/\s+/)\<close>. The pieces between maximal runs of white space, in order; a run at
  the start or at the end of \<open>s\<close> leaves an empty piece there, and the empty string
  splits into one empty piece. \<open>cur\<close> is the piece being read, reversed; \<open>sep\<close> tells
  that the previous character belonged to a separator.
\<close>

fun split_ws :: "bool \<Rightarrow> string \<Rightarrow> string \<Rightarrow> string list" where
  "split_ws sep cur [] = [rev cur]"
| "split_ws sep cur (c # cs) =
     (if is_space_char c
      then (if sep then split_ws True [] cs else rev cur # split_ws True [] cs)
      else split_ws False (c # cur) cs)"

definition split_whitespace :: "string \<Rightarrow> string list" where
  "split_whitespace s = split_ws False [] s"

text \<open>
  \<^verbatim>\<open>tokenize(text) {
    if (!text) return [];
    return text.toLowerCase().replace(/[^\w\s]/g, '').split(/\s+/).filter(w => w.length > 2);
  }\<close>
  \<open>!text\<close> holds of \<open>undefined\<close> and of the empty string.
\<close>

definition tokenize :: "string option \<Rightarrow> string list" where
  "tokenize text =
     (case text of
        None \<Rightarrow> []
      | Some s \<Rightarrow>
          if s = [] then []
          else filter (\<lambda>w. length w > 2) (split_whitespace (strip_non_word (toLowerCase s))))"

subsection \<open>Values and the model state\<close>

datatype category = Positive | Negative | Neutral

text \<open>The category that a label names, if it names one.\<close>

definition category_of :: "string \<Rightarrow> category option" where
  "category_of s =
     (if s = ''Positive'' then Some Positive
      else if s = ''Negative'' then Some Negative
      else if s = ''Neutral'' then Some Neutral
      else None)"

datatype jsnum = Fin real | PInf | NInf | NaN

text \<open>
  What a property of \<open>wordCounts[category]\<close> can hold, and what a read of it can give:
  a count, or \<open>NotNum\<close>: a function, an object, or a string that starts with the text of
  one of them. Such a value is truthy, \<open>+\<close> concatenates it into another such string, and
  in a division it converts to \<open>NaN\<close>.
\<close>

datatype jsval = Num nat | NotNum

fun js_add :: "jsval \<Rightarrow> jsval \<Rightarrow> jsval" where
  "js_add (Num a) (Num b) = Num (a + b)"
| "js_add _ _ = NotNum"

text \<open>
  The properties every plain object inherits from \<open>Object.prototype\<close>: eleven methods
  (writable data properties) and the accessor \<open>__proto__\<close>.
\<close>

definition prototype_methods :: "string list" where
  "prototype_methods =
     [''constructor'', ''hasOwnProperty'', ''isPrototypeOf'', ''propertyIsEnumerable'',
      ''toLocaleString'', ''toString'', ''valueOf'', ''__defineGetter__'',
      ''__defineSetter__'', ''__lookupGetter__'', ''__lookupSetter__'']"

definition inherited :: "string \<Rightarrow> bool" where
  "inherited k = (k = ''__proto__'' \<or> k \<in> set prototype_methods)"

record model =
  wordCounts :: "category \<Rightarrow> (string \<times> jsval) list"
  classCounts :: "category \<Rightarrow> nat"
  otherCounts :: "(string \<times> jsnum) list"
  vocab :: "string list"
  totalDocs :: nat

text \<open>
  \<open>classCounts\<close> is one object in the source. Its three properties created by the
  constructor are \<open>classCounts\<close> here; the properties that \<open>train\<close> adds for other
  labels are \<open>otherCounts\<close>.
\<close>

record document =
  doc_text :: "string option"
  doc_label :: string

text \<open>
  \<^verbatim>\<open>constructor() {
    this.wordCounts = { Positive: {}, Negative: {}, Neutral: {} };
    this.classCounts = { Positive: 0, Negative: 0, Neutral: 0 };
    this.vocab = new Set();
    this.totalDocs = 0;
  }\<close>
\<close>

definition new_classifier :: model where
  "new_classifier =
     \<lparr>wordCounts = (\<lambda>c. []), classCounts = (\<lambda>c. 0), otherCounts = [], vocab = [],
      totalDocs = 0\<rparr>"

subsection \<open>train\<close>

text \<open>\<open>this.vocab.add(token)\<close>\<close>

definition vocab_add :: "string \<Rightarrow> string list \<Rightarrow> string list" where
  "vocab_add t v = (if t \<in> set v then v else v @ [t])"

text \<open>
  \<open>wc[token] = (wc[token] || 0) + 1\<close> on the object \<open>wc = this.wordCounts[category]\<close>.
  An own property is read and written back, one larger (or one character longer).
  Without an own property the read reaches \<open>Object.prototype\<close>: for \<open>__proto__\<close> it
  gives an object and the write goes to the inherited setter, which ignores a string;
  for a method name it gives a function, and the write stores a string as an own
  property; for any other key it gives \<open>undefined\<close> and the write stores 1.
\<close>

definition count_token :: "(string \<times> jsval) list \<Rightarrow> string \<Rightarrow> (string \<times> jsval) list" where
  "count_token wc t =
     (case map_of wc t of
        Some v \<Rightarrow> AList.update t (js_add v (Num 1)) wc
      | None \<Rightarrow>
          if t = ''__proto__'' then wc
          else if t \<in> set prototype_methods then AList.update t NotNum wc
          else AList.update t (Num 1) wc)"

definition add_token :: "category \<Rightarrow> string \<Rightarrow> model \<Rightarrow> model" where
  "add_token c t m =
     m\<lparr>vocab := vocab_add t (vocab m),
       wordCounts := (wordCounts m)(c := count_token (wordCounts m c) t)\<rparr>"

datatype error = TypeError | BuiltinWrite

text \<open>
  The body of \<open>documents.forEach\<close>:
  \<^verbatim>\<open>this.totalDocs++;
  const category = doc.label;
  this.classCounts[category]++;
  const tokens = this.tokenize(doc.text);
  tokens.forEach(token => {
    this.vocab.add(token);
    this.wordCounts[category][token] = (this.wordCounts[category][token] || 0) + 1;
  });\<close>
  For a label other than the three categories, \<open>classCounts[label]++\<close> stores \<open>NaN\<close>
  under the label (the setter of \<open>__proto__\<close> ignores it), and \<open>wordCounts[label]\<close> is
  \<open>undefined\<close>, so the first token raises a \<open>TypeError\<close>. When the label names an
  inherited property, \<open>wordCounts[label]\<close> is a built-in object instead and the tokens
  are written into it; built-in objects are not part of the state here, and the
  result \<open>Inl BuiltinWrite\<close> marks such a run. \<open>Inl\<close> drops the half-updated state.
\<close>

definition train_doc :: "model \<Rightarrow> document \<Rightarrow> error + model" where
  "train_doc m d =
     (let m1 = m\<lparr>totalDocs := totalDocs m + 1\<rparr>;
          tokens = tokenize (doc_text d)
      in case category_of (doc_label d) of
           Some c \<Rightarrow>
             Inr (fold (add_token c) tokens
                    (m1\<lparr>classCounts := (classCounts m1)(c := classCounts m1 c + 1)\<rparr>))
         | None \<Rightarrow>
             (let m2 = (if doc_label d = ''__proto__'' then m1
                        else m1\<lparr>otherCounts := AList.update (doc_label d) NaN (otherCounts m1)\<rparr>)
              in if tokens = [] then Inr m2
                 else if inherited (doc_label d) then Inl BuiltinWrite
                 else Inl TypeError))"

fun train_docs :: "model \<Rightarrow> document list \<Rightarrow> error + model" where
  "train_docs m [] = Inr m"
| "train_docs m (d # ds) =
     (case train_doc m d of Inl e \<Rightarrow> Inl e | Inr m' \<Rightarrow> train_docs m' ds)"

text \<open>The four assignments that open \<open>train\<close>; they replace both count objects.\<close>

definition reset :: "model \<Rightarrow> model" where
  "reset m =
     m\<lparr>wordCounts := (\<lambda>c. []), classCounts := (\<lambda>c. 0), otherCounts := [], vocab := [],
       totalDocs := 0\<rparr>"

definition train :: "model \<Rightarrow> document list \<Rightarrow> error + model" where
  "train m documents = train_docs (reset m) documents"

subsection \<open>predict\<close>

text \<open>\<open>Math.log\<close>\<close>

fun Math_log :: "jsnum \<Rightarrow> jsnum" where
  "Math_log (Fin r) = (if r < 0 then NaN else if r = 0 then NInf else Fin (ln r))"
| "Math_log PInf = PInf"
| "Math_log NInf = NaN"
| "Math_log NaN = NaN"

text \<open>\<open>+\<close> and \<open>>\<close> on numbers\<close>

fun js_plus :: "jsnum \<Rightarrow> jsnum \<Rightarrow> jsnum" where
  "js_plus (Fin a) (Fin b) = Fin (a + b)"
| "js_plus NaN _ = NaN"
| "js_plus _ NaN = NaN"
| "js_plus PInf NInf = NaN"
| "js_plus NInf PInf = NaN"
| "js_plus PInf _ = PInf"
| "js_plus _ PInf = PInf"
| "js_plus NInf _ = NInf"
| "js_plus _ NInf = NInf"

fun js_greater :: "jsnum \<Rightarrow> jsnum \<Rightarrow> bool" where
  "js_greater (Fin a) (Fin b) = (a > b)"
| "js_greater NaN _ = False"
| "js_greater _ NaN = False"
| "js_greater PInf PInf = False"
| "js_greater PInf _ = True"
| "js_greater _ PInf = False"
| "js_greater NInf _ = False"
| "js_greater _ NInf = True"

text \<open>
  \<open>x / y\<close> for operands that are counts or \<open>NotNum\<close>: a string operand converts to
  \<open>NaN\<close>, and division of a count by zero gives \<open>NaN\<close> or \<open>Infinity\<close>.
\<close>

fun js_divide :: "jsval \<Rightarrow> jsval \<Rightarrow> jsnum" where
  "js_divide (Num x) (Num y) =
     (if y = 0 then (if x = 0 then NaN else PInf) else Fin (real x / real y))"
| "js_divide _ _ = NaN"

text \<open>\<open>n || d\<close> for a count \<open>n\<close>\<close>

definition or_default :: "nat \<Rightarrow> real \<Rightarrow> real" where
  "or_default n d = (if n = 0 then d else real n)"

text \<open>
  \<open>this.wordCounts[category][token] || 0\<close>: the own property, else what
  \<open>Object.prototype\<close> has under the key, else 0.
\<close>

definition tokenCount :: "(string \<times> jsval) list \<Rightarrow> string \<Rightarrow> jsval" where
  "tokenCount wc t =
     (case map_of wc t of
        Some v \<Rightarrow> v
      | None \<Rightarrow> if inherited t then NotNum else Num 0)"

text \<open>
  \<open>Object.values(this.wordCounts[category]).reduce((a, b) => a + b, 0)\<close>. \<open>Object.values\<close>
  lists the keys that are array indices before the others; the sum does not depend on
  the order of the values.
\<close>

definition classTotalWords :: "(string \<times> jsval) list \<Rightarrow> jsval" where
  "classTotalWords wc = foldl js_add (Num 0) (map snd wc)"

definition vocabSize :: "model \<Rightarrow> nat" where
  "vocabSize m = length (vocab m)"

text \<open>The summand of one token: \<open>Math.log((tokenCount + 1) / (classTotalWords + vocabSize))\<close>.\<close>

definition token_term :: "model \<Rightarrow> category \<Rightarrow> string \<Rightarrow> jsnum" where
  "token_term m c t =
     Math_log (js_divide (js_add (tokenCount (wordCounts m c) t) (Num 1))
                         (js_add (classTotalWords (wordCounts m c)) (Num (vocabSize m))))"

text \<open>\<open>Math.log((this.classCounts[category] || 0.1) / (this.totalDocs || 1))\<close>\<close>

definition prior :: "model \<Rightarrow> category \<Rightarrow> jsnum" where
  "prior m c = Math_log (Fin (or_default (classCounts m c) (1 / 10) / or_default (totalDocs m) 1))"

definition logProb :: "model \<Rightarrow> string list \<Rightarrow> category \<Rightarrow> jsnum" where
  "logProb m tokens c = foldl (\<lambda>acc t. js_plus acc (token_term m c t)) (prior m c) tokens"

record prediction =
  label :: category
  scores :: "category \<rightharpoonup> jsnum"

text \<open>
  The body of \<open>categories.forEach\<close>, on the triple of \<open>bestCategory\<close>, \<open>maxProb\<close> and
  \<open>scores\<close>.
\<close>

definition consider_category ::
  "model \<Rightarrow> string list \<Rightarrow> category \<times> jsnum \<times> (category \<rightharpoonup> jsnum) \<Rightarrow> category
   \<Rightarrow> category \<times> jsnum \<times> (category \<rightharpoonup> jsnum)" where
  "consider_category m tokens st c =
     (case st of (bestCategory, maxProb, sc) \<Rightarrow>
        (let lp = logProb m tokens c; sc' = sc(c \<mapsto> lp)
         in if js_greater lp maxProb then (c, lp, sc') else (bestCategory, maxProb, sc')))"

definition categories :: "category list" where
  "categories = [Positive, Negative, Neutral]"

definition predict :: "model \<Rightarrow> string option \<Rightarrow> prediction" where
  "predict m text =
     (case foldl (consider_category m (tokenize text)) (Neutral, NInf, Map.empty) categories of
        (bestCategory, maxProb, sc) \<Rightarrow> \<lparr>label = bestCategory, scores = sc\<rparr>)"

section \<open>Definitions used to state the claims\<close>

subsection \<open>The tokenizer as the specification words it\<close>

definition is_ascii_letter :: "char \<Rightarrow> bool" where
  "is_ascii_letter c =
     (let n = code_unit c in (65 \<le> n \<and> n \<le> 90) \<or> (97 \<le> n \<and> n \<le> 122))"

definition is_digit :: "char \<Rightarrow> bool" where
  "is_digit c = (let n = code_unit c in 48 \<le> n \<and> n \<le> 57)"

text \<open>
  The letters below 256: the ASCII letters, the two ordinal indicators, the micro sign
  and the accented letters of Latin-1.
\<close>

definition is_letter :: "char \<Rightarrow> bool" where
  "is_letter c =
     (let n = code_unit c
      in is_ascii_letter c \<or> n = 170 \<or> n = 181 \<or> n = 186 \<or> (192 \<le> n \<and> n \<le> 214) \<or>
         (216 \<le> n \<and> n \<le> 246) \<or> (248 \<le> n \<and> n \<le> 255))"

text \<open>
  Splitting on runs of white space: the maximal runs of characters that are not white
  space, from left to right.
\<close>

function words_of :: "string \<Rightarrow> string list" where
  "words_of s =
     (case dropWhile is_space_char s of
        [] \<Rightarrow> []
      | c # cs \<Rightarrow>
          takeWhile (\<lambda>x. \<not> is_space_char x) (c # cs)
            # words_of (dropWhile (\<lambda>x. \<not> is_space_char x) (c # cs)))"
  by pat_completeness auto
termination
proof (relation "measure length")
  show "wf (measure length)" by simp
next
  fix s :: string and c cs
  assume a: "dropWhile is_space_char s = c # cs"
  have "length (dropWhile (\<lambda>x. \<not> is_space_char x) (c # cs)) \<le> length cs"
  proof -
    have "\<not> is_space_char c" using a hd_dropWhile [of is_space_char s] by auto
    then show ?thesis by (simp add: length_dropWhile_le)
  qed
  moreover have "length (c # cs) \<le> length s"
    using a length_dropWhile_le [of is_space_char s] by simp
  ultimately show "(dropWhile (\<lambda>x. \<not> is_space_char x) (c # cs), s) \<in> measure length"
    by simp
qed

declare words_of.simps [simp del]

text \<open>
  The claim's tokenizer: lower-case, remove what is not a letter, a digit or white
  space, split on runs of white space, discard the tokens of length at most 2. A
  missing text is the empty string.
\<close>

definition tokenize_spec :: "string option \<Rightarrow> string list" where
  "tokenize_spec text =
     (let s = (case text of None \<Rightarrow> [] | Some s \<Rightarrow> s)
      in filter (\<lambda>w. \<not> length w \<le> 2)
           (words_of (filter (\<lambda>c. is_letter c \<or> is_digit c \<or> is_space_char c)
              (toLowerCase s))))"

text \<open>The same with the characters that the code keeps.\<close>

definition tokenize_amended :: "string option \<Rightarrow> string list" where
  "tokenize_amended text =
     (let s = (case text of None \<Rightarrow> [] | Some s \<Rightarrow> s)
      in filter (\<lambda>w. \<not> length w \<le> 2)
           (words_of
              (filter (\<lambda>c. is_ascii_letter c \<or> is_digit c \<or> c = CHR ''_'' \<or> is_space_char c)
                 (toLowerCase s))))"

subsection \<open>Labels outside the three categories\<close>

definition foreign :: "document \<Rightarrow> bool" where
  "foreign d = (category_of (doc_label d) = None)"

subsection \<open>The running best of the selection\<close>

text \<open>
  One step of the selection on the pair of \<open>bestCategory\<close> and \<open>maxProb\<close>, for given
  scores: the pair changes only when the score of \<open>c\<close> is strictly greater.
\<close>

definition running_best ::
  "(category \<Rightarrow> jsnum) \<Rightarrow> category \<times> jsnum \<Rightarrow> category \<Rightarrow> category \<times> jsnum" where
  "running_best score bm c = (if js_greater (score c) (snd bm) then (c, score c) else bm)"

subsection \<open>The statistics of a corpus\<close>

text \<open>
  The documents of a category, the tokens of a category's documents and the tokens of
  all documents, in the order of the corpus.
\<close>

definition labelled :: "category \<Rightarrow> document list \<Rightarrow> document list" where
  "labelled c docs = filter (\<lambda>d. category_of (doc_label d) = Some c) docs"

definition class_tokens :: "category \<Rightarrow> document list \<Rightarrow> string list" where
  "class_tokens c docs = concat (map (\<lambda>d. tokenize (doc_text d)) (labelled c docs))"

definition all_tokens :: "document list \<Rightarrow> string list" where
  "all_tokens docs = concat (map (\<lambda>d. tokenize (doc_text d)) docs)"

text \<open>
  The score of the claims: the logarithm of the floored prior, plus one logarithm of
  the smoothed relative frequency for each occurrence of a token.
\<close>

definition score_formula :: "document list \<Rightarrow> string list \<Rightarrow> category \<Rightarrow> real" where
  "score_formula docs tokens c =
     ln (max (real (length (labelled c docs))) (1 / 10) / max (real (length docs)) 1) +
     (\<Sum>t\<leftarrow>tokens. ln ((real (count_list (class_tokens c docs) t) + 1) /
                       (real (length (class_tokens c docs)) + real (card (set (all_tokens docs))))))"

text \<open>\<open>>=\<close> on numbers\<close>

fun js_greater_equal :: "jsnum \<Rightarrow> jsnum \<Rightarrow> bool" where
  "js_greater_equal (Fin a) (Fin b) = (a \<ge> b)"
| "js_greater_equal NaN _ = False"
| "js_greater_equal _ NaN = False"
| "js_greater_equal PInf _ = True"
| "js_greater_equal _ NInf = True"
| "js_greater_equal _ PInf = False"
| "js_greater_equal NInf _ = False"

subsection \<open>The state that training reaches\<close>

text \<open>What one more occurrence of the key \<open>t\<close> makes of the entry \<open>v\<close> under \<open>t\<close>.\<close>

definition next_count :: "string \<Rightarrow> jsval option \<Rightarrow> jsval option" where
  "next_count t v =
     (case v of
        Some x \<Rightarrow> Some (js_add x (Num 1))
      | None \<Rightarrow> if t = ''__proto__'' then None
                else if t \<in> set prototype_methods then Some NotNum else Some (Num 1))"

text \<open>The state after one document of category \<open>c\<close> with the tokens \<open>ts\<close>.\<close>

definition learn :: "category \<Rightarrow> string list \<Rightarrow> model \<Rightarrow> model" where
  "learn c ts m =
     \<lparr>wordCounts = (wordCounts m)(c := fold (\<lambda>t wc. count_token wc t) ts (wordCounts m c)),
      classCounts = (classCounts m)(c := classCounts m c + 1),
      otherCounts = otherCounts m,
      vocab = fold vocab_add ts (vocab m),
      totalDocs = totalDocs m + 1\<rparr>"

text \<open>The state after a corpus whose labels are all categories.\<close>

definition trained :: "document list \<Rightarrow> model \<Rightarrow> model" where
  "trained docs m =
     \<lparr>wordCounts =
        (\<lambda>c. fold (\<lambda>t wc. count_token wc t) (class_tokens c docs) (wordCounts m c)),
      classCounts = (\<lambda>c. classCounts m c + length (labelled c docs)),
      otherCounts = otherCounts m,
      vocab = fold vocab_add (all_tokens docs) (vocab m),
      totalDocs = totalDocs m + length docs\<rparr>"

text \<open>
  Two states are the same when they hold the same mappings, counts and vocabulary;
  the order in which the keys were inserted is left out.
\<close>

definition same_state :: "model \<Rightarrow> model \<Rightarrow> bool" where
  "same_state m m' =
     ((\<forall>c. map_of (wordCounts m c) = map_of (wordCounts m' c)) \<and>
      classCounts m = classCounts m' \<and>
      map_of (otherCounts m) = map_of (otherCounts m') \<and>
      set (vocab m) = set (vocab m') \<and>
      totalDocs m = totalDocs m')"

fun count_of :: "jsval \<Rightarrow> nat" where
  "count_of (Num n) = n"
| "count_of NotNum = 0"

subsection \<open>Example inputs\<close>

text \<open>The corpus of two documents that the specification uses as its example.\<close>

definition example_corpus :: "document list" where
  "example_corpus =
     [\<lparr>doc_text = Some ''great fast delivery'', doc_label = ''Positive''\<rparr>,
      \<lparr>doc_text = Some ''terrible slow service'', doc_label = ''Negative''\<rparr>]"

definition example_model :: model where
  "example_model =
     \<lparr>wordCounts = (\<lambda>c. [])
        (Positive := [(''great'', Num 1), (''fast'', Num 1), (''delivery'', Num 1)],
         Negative := [(''terrible'', Num 1), (''slow'', Num 1), (''service'', Num 1)]),
      classCounts = (\<lambda>c. 0)(Positive := 1, Negative := 1),
      otherCounts = [],
      vocab = [''great'', ''fast'', ''delivery'', ''terrible'', ''slow'', ''service''],
      totalDocs = 2\<rparr>"

text \<open>Two documents with a label outside the three categories.\<close>

definition mixed_doc :: document where
  "mixed_doc = \<lparr>doc_text = Some ''great product'', doc_label = ''Mixed''\<rparr>"

definition quiet_doc :: document where
  "quiet_doc = \<lparr>doc_text = Some ''ok'', doc_label = ''Mixed''\<rparr>"

text \<open>A document whose text has the words \<open>constructor\<close> and \<open>__proto__\<close>.\<close>

definition proto_corpus :: "document list" where
  "proto_corpus = [\<lparr>doc_text = Some ''constructor __proto__'', doc_label = ''Positive''\<rparr>]"

definition proto_model :: model where
  "proto_model =
     \<lparr>wordCounts = (\<lambda>c. [])(Positive := [(''constructor'', NotNum)]),
      classCounts = (\<lambda>c. 0)(Positive := 1),
      otherCounts = [],
      vocab = [''constructor'', ''__proto__''],
      totalDocs = 1\<rparr>"

text \<open>A one-document corpus, before and after the document is relabelled.\<close>

definition relabel_before :: "document list" where
  "relabel_before = [\<lparr>doc_text = Some ''constructor broke'', doc_label = ''Negative''\<rparr>]"

definition relabel_after :: "document list" where
  "relabel_after = [\<lparr>doc_text = Some ''constructor broke'', doc_label = ''Positive''\<rparr>]"

definition model_before :: model where
  "model_before =
     \<lparr>wordCounts = (\<lambda>c. [])(Negative := [(''constructor'', NotNum), (''broke'', Num 1)]),
      classCounts = (\<lambda>c. 0)(Negative := 1),
      otherCounts = [],
      vocab = [''constructor'', ''broke''],
      totalDocs = 1\<rparr>"

definition model_after :: model where
  "model_after =
     \<lparr>wordCounts = (\<lambda>c. [])(Positive := [(''constructor'', NotNum), (''broke'', Num 1)]),
      classCounts = (\<lambda>c. 0)(Positive := 1),
      otherCounts = [],
      vocab = [''constructor'', ''broke''],
      totalDocs = 1\<rparr>"

section \<open>Evaluation at concrete inputs\<close>

lemmas score_defs = predict_def categories_def consider_category_def logProb_def token_term_def
  prior_def or_default_def tokenCount_def classTotalWords_def vocabSize_def inherited_def
  prototype_methods_def

lemmas train_defs = train_def reset_def train_doc_def category_of_def add_token_def
  vocab_add_def count_token_def prototype_methods_def inherited_def

lemmas char_defs = toLowerCase_def toLowerCase_char_def code_unit_def strip_non_word_def
  is_word_char_def is_space_char_def split_whitespace_def is_letter_def is_digit_def
  is_ascii_letter_def

lemma reset_new_classifier: "reset m = new_classifier"
  by (cases m) (simp add: reset_def new_classifier_def)

lemma train_empty: "train m [] = Inr new_classifier"
  by (simp add: train_def reset_new_classifier)

lemma tokenize_example_1:
  "tokenize (Some ''great fast delivery'') = [''great'', ''fast'', ''delivery'']"
  by code_simp

lemma tokenize_example_2:
  "tokenize (Some ''terrible slow service'') = [''terrible'', ''slow'', ''service'']"
  by code_simp

lemma train_example: "train m example_corpus = Inr example_model"
  by (simp add: train_defs example_corpus_def example_model_def tokenize_example_1
      tokenize_example_2 fun_upd_twist)

lemma tokenize_anything: "tokenize (Some ''anything'') = [''anything'']"
  by code_simp

lemma tokenize_constructor: "tokenize (Some ''constructor'') = [''constructor'']"
  by code_simp

lemma tokenize_unseen: "tokenize (Some ''never seen words'') = [''never'', ''seen'', ''words'']"
  by code_simp

lemma tokenize_great_product: "tokenize (Some ''great product'') = [''great'', ''product'']"
  by code_simp

lemma tokenize_ok: "tokenize (Some ''ok'') = []"
  by code_simp

lemma tokenize_proto:
  "tokenize (Some ''constructor __proto__'') = [''constructor'', ''__proto__'']"
  by code_simp

lemma tokenize_broke: "tokenize (Some ''constructor broke'') = [''constructor'', ''broke'']"
  by code_simp

lemma train_proto: "train m proto_corpus = Inr proto_model"
  by (simp add: train_defs proto_corpus_def proto_model_def tokenize_proto)

lemma train_relabel_before: "train m relabel_before = Inr model_before"
  by (simp add: train_defs relabel_before_def model_before_def tokenize_broke)

lemma train_relabel_after: "train m relabel_after = Inr model_after"
  by (simp add: train_defs relabel_after_def model_after_def tokenize_broke)

section \<open>The tokenizer\<close>

lemma words_of_Nil: "words_of [] = []"
  by (simp add: words_of.simps)

lemma words_of_space: "is_space_char c \<Longrightarrow> words_of (c # cs) = words_of cs"
  by (subst words_of.simps, subst (2) words_of.simps) simp

lemma words_of_word:
  assumes "w \<noteq> []" "\<forall>x\<in>set w. \<not> is_space_char x"
  shows "words_of w = [w]"
proof -
  obtain c cs where w: "w = c # cs" using assms(1) by (cases w) auto
  have d: "dropWhile is_space_char w = w" using assms(2) w by simp
  have t: "takeWhile (\<lambda>x. \<not> is_space_char x) w = w" using assms(2) by simp
  have e: "dropWhile (\<lambda>x. \<not> is_space_char x) w = []" using assms(2) by simp
  show ?thesis
    using d t e w by (subst words_of.simps) (simp add: words_of_Nil)
qed

lemma words_of_word_space:
  assumes "w \<noteq> []" "\<forall>x\<in>set w. \<not> is_space_char x" "is_space_char c"
  shows "words_of (w @ c # cs) = w # words_of cs"
proof -
  obtain a as where w: "w = a # as" using assms(1) by (cases w) auto
  have d: "dropWhile is_space_char (w @ c # cs) = w @ c # cs" using assms(2) w by simp
  have t: "takeWhile (\<lambda>x. \<not> is_space_char x) (w @ c # cs) = w"
    using assms(2,3) by (simp add: takeWhile_append2 [of w])
  have e: "dropWhile (\<lambda>x. \<not> is_space_char x) (w @ c # cs) = c # cs"
    using assms(2,3) by (simp add: dropWhile_append2 [of w])
  have "words_of (w @ c # cs) = w # words_of (c # cs)"
    using d t e w by (subst words_of.simps) simp
  then show ?thesis using assms(3) by (simp add: words_of_space)
qed

text \<open>
  The pieces of \<open>split\<close> that are not empty are the words. The piece being read holds no
  white space, and it is empty right after a separator.
\<close>

lemma split_ws_words:
  "\<forall>x\<in>set cur. \<not> is_space_char x \<Longrightarrow> (sep \<Longrightarrow> cur = []) \<Longrightarrow>
   filter (\<lambda>w. w \<noteq> []) (split_ws sep cur s) = words_of (rev cur @ s)"
proof (induction s arbitrary: sep cur)
  case Nil
  then show ?case by (cases "cur = []") (simp_all add: words_of_Nil words_of_word)
next
  case (Cons c cs)
  show ?case
  proof (cases "is_space_char c")
    case True
    have ih: "filter (\<lambda>w. w \<noteq> []) (split_ws True [] cs) = words_of cs"
      using Cons.IH [of "[]" True] by simp
    show ?thesis
    proof (cases "cur = []")
      case True
      with \<open>is_space_char c\<close> ih show ?thesis by (simp add: words_of_space)
    next
      case False
      then have "words_of (rev cur @ c # cs) = rev cur # words_of cs"
        using Cons.prems \<open>is_space_char c\<close> by (intro words_of_word_space) auto
      moreover have "\<not> sep" using Cons.prems(2) False by auto
      ultimately show ?thesis using \<open>is_space_char c\<close> False ih by auto
    qed
  next
    case False
    then show ?thesis using Cons.IH [of "c # cur" False] Cons.prems by simp
  qed
qed

lemma filter_long_nonempty:
  "filter (\<lambda>w. length w > 2) ws =
   filter (\<lambda>w. \<not> length w \<le> 2) (filter (\<lambda>w. w \<noteq> []) ws)"
  by (induction ws) auto

lemma split_whitespace_words:
  "filter (\<lambda>w. length w > 2) (split_whitespace s) =
   filter (\<lambda>w. \<not> length w \<le> 2) (words_of s)"
  using split_ws_words [of "[]" False s] by (simp add: split_whitespace_def filter_long_nonempty)

lemma word_char_classes:
  "is_word_char c = (is_ascii_letter c \<or> is_digit c \<or> c = CHR ''_'')"
proof -
  have "of_char (CHR ''_'') = (95::nat)" by simp
  then have "c = CHR ''_'' \<longleftrightarrow> code_unit c = 95"
    unfolding code_unit_def by (metis of_char_eq_iff)
  then show ?thesis
    by (auto simp add: is_word_char_def is_ascii_letter_def is_digit_def Let_def)
qed

lemma words_of_goodapp: "words_of ''goodapp'' = [''goodapp'']"
  by (rule words_of_word) (simp_all add: is_space_char_def code_unit_def)

lemma words_of_cafe:
  "words_of [CHR ''c'', CHR ''a'', CHR ''f'', CHR 0xE9] = [[CHR ''c'', CHR ''a'', CHR ''f'', CHR 0xE9]]"
  by (rule words_of_word) (simp_all add: is_space_char_def code_unit_def)

section \<open>The selection\<close>

lemma predict_fold:
  "predict m text =
     \<lparr>label = fst (foldl (running_best (logProb m (tokenize text))) (Neutral, NInf)
                     [Positive, Negative, Neutral]),
      scores = [Positive \<mapsto> logProb m (tokenize text) Positive,
                Negative \<mapsto> logProb m (tokenize text) Negative,
                Neutral \<mapsto> logProb m (tokenize text) Neutral]\<rparr>"
  by (simp add: predict_def categories_def consider_category_def running_best_def Let_def)

lemma logProb_new_empty: "logProb new_classifier (tokenize None) c = Fin (ln (1 / 10))"
  by (simp add: tokenize_def logProb_def prior_def or_default_def new_classifier_def)

lemma predict_otherCounts: "predict (m\<lparr>otherCounts := x\<rparr>) text = predict m text"
  by (simp add: predict_def consider_category_def logProb_def token_term_def prior_def
      vocabSize_def categories_def)

section \<open>Training on labels outside the three categories\<close>

lemma train_doc_category:
  assumes "category_of (doc_label d) = Some c"
  shows "train_doc m d =
           Inr (fold (add_token c) (tokenize (doc_text d))
                  (m\<lparr>totalDocs := totalDocs m + 1,
                      classCounts := (classCounts m)(c := classCounts m c + 1)\<rparr>))"
  using assms by (simp add: train_doc_def)

lemma otherCounts_fold_add_token [simp]:
  "otherCounts (fold (add_token c) ts m) = otherCounts m"
  by (induction ts arbitrary: m) (simp_all add: add_token_def)

lemma train_doc_foreign:
  assumes "foreign d" "\<not> inherited (doc_label d)"
  shows "train_doc m d =
           (if tokenize (doc_text d) = []
            then Inr (m\<lparr>totalDocs := totalDocs m + 1,
                        otherCounts := AList.update (doc_label d) NaN (otherCounts m)\<rparr>)
            else Inl TypeError)"
  using assms by (auto simp add: train_doc_def foreign_def inherited_def)

lemma train_docs_foreign:
  assumes "\<forall>d\<in>set docs. foreign d \<longrightarrow> \<not> inherited (doc_label d)"
  shows "if \<forall>d\<in>set docs. foreign d \<longrightarrow> tokenize (doc_text d) = []
         then \<exists>m'. train_docs m docs = Inr m' \<and>
                (\<forall>k. map_of (otherCounts m) k = Some NaN \<or>
                      (\<exists>d\<in>set docs. foreign d \<and> doc_label d = k)
                   \<longrightarrow> map_of (otherCounts m') k = Some NaN)
         else train_docs m docs = Inl TypeError"
  using assms
proof (induction docs arbitrary: m)
  case Nil
  then show ?case by simp
next
  case (Cons d ds)
  show ?case
  proof (cases "foreign d")
    case False
    then obtain c where c: "category_of (doc_label d) = Some c"
      by (auto simp add: foreign_def)
    define m1 where "m1 = fold (add_token c) (tokenize (doc_text d))
                  (m\<lparr>totalDocs := totalDocs m + 1,
                      classCounts := (classCounts m)(c := classCounts m c + 1)\<rparr>)"
    have td: "train_doc m d = Inr m1" unfolding m1_def by (rule train_doc_category [OF c])
    have oc: "otherCounts m1 = otherCounts m" by (simp add: m1_def)
    have ih: "if \<forall>d\<in>set ds. foreign d \<longrightarrow> tokenize (doc_text d) = []
         then \<exists>m'. train_docs m1 ds = Inr m' \<and>
                (\<forall>k. map_of (otherCounts m1) k = Some NaN \<or>
                      (\<exists>d\<in>set ds. foreign d \<and> doc_label d = k)
                   \<longrightarrow> map_of (otherCounts m') k = Some NaN)
         else train_docs m1 ds = Inl TypeError"
      using Cons.IH [of m1] Cons.prems by simp
    show ?thesis using ih False td oc by (auto split: if_splits)
  next
    case True
    then have ni: "\<not> inherited (doc_label d)" using Cons.prems by simp
    show ?thesis
    proof (cases "tokenize (doc_text d) = []")
      case False
      then show ?thesis using True ni by (auto simp add: train_doc_foreign)
    next
      case empty: True
      define m1 where "m1 = m\<lparr>totalDocs := totalDocs m + 1,
                        otherCounts := AList.update (doc_label d) NaN (otherCounts m)\<rparr>"
      have td: "train_doc m d = Inr m1"
        using True ni empty by (simp add: train_doc_foreign m1_def)
      have oc: "map_of (otherCounts m1) = (map_of (otherCounts m))(doc_label d \<mapsto> NaN)"
        by (simp add: m1_def update_conv')
      have ih: "if \<forall>d\<in>set ds. foreign d \<longrightarrow> tokenize (doc_text d) = []
         then \<exists>m'. train_docs m1 ds = Inr m' \<and>
                (\<forall>k. map_of (otherCounts m1) k = Some NaN \<or>
                      (\<exists>d\<in>set ds. foreign d \<and> doc_label d = k)
                   \<longrightarrow> map_of (otherCounts m') k = Some NaN)
         else train_docs m1 ds = Inl TypeError"
        using Cons.IH [of m1] Cons.prems by simp
      have keep: "map_of (otherCounts m1) k = Some NaN"
        if "map_of (otherCounts m) k = Some NaN \<or> (foreign d \<and> doc_label d = k)" for k
        using that oc by auto
      show ?thesis
      proof (cases "\<forall>d\<in>set ds. foreign d \<longrightarrow> tokenize (doc_text d) = []")
        case False
        then have "train_docs m1 ds = Inl TypeError" using ih by simp
        then show ?thesis using False td by auto
      next
        case all: True
        then obtain m' where m': "train_docs m1 ds = Inr m'"
          and st: "\<And>k. map_of (otherCounts m1) k = Some NaN \<or>
                       (\<exists>d\<in>set ds. foreign d \<and> doc_label d = k)
                     \<Longrightarrow> map_of (otherCounts m') k = Some NaN"
          using ih by auto
        have "map_of (otherCounts m') k = Some NaN"
          if "map_of (otherCounts m) k = Some NaN \<or>
              (\<exists>d'\<in>set (d # ds). foreign d' \<and> doc_label d' = k)" for k
          using that keep [of k] st [of k] by auto
        then show ?thesis using all empty td m' by auto
      qed
    qed
  qed
qed

section \<open>Training on a corpus of the three categories\<close>

lemma map_of_count_token:
  "map_of (count_token wc t) = (map_of wc)(t := next_count t (map_of wc t))"
  by (auto simp add: count_token_def next_count_def update_conv' split: option.splits)

lemma distinct_count_token:
  "distinct (map fst wc) \<Longrightarrow> distinct (map fst (count_token wc t))"
  by (simp add: count_token_def distinct_update split: option.splits)

lemma map_of_fold_count_token:
  "map_of (fold (\<lambda>t wc. count_token wc t) ts wc) k =
     (next_count k ^^ count_list ts k) (map_of wc k)"
proof (induction ts arbitrary: wc)
  case Nil
  then show ?case by simp
next
  case (Cons t ts)
  show ?case
    by (simp add: Cons.IH map_of_count_token funpow_swap1)
qed

lemma distinct_fold_count_token:
  "distinct (map fst wc) \<Longrightarrow> distinct (map fst (fold (\<lambda>t wc. count_token wc t) ts wc))"
  by (induction ts arbitrary: wc) (simp_all add: distinct_count_token)

lemma set_vocab_add: "set (vocab_add t v) = insert t (set v)"
  by (auto simp add: vocab_add_def)

lemma distinct_vocab_add: "distinct v \<Longrightarrow> distinct (vocab_add t v)"
  by (simp add: vocab_add_def)

lemma set_fold_vocab_add: "set (fold vocab_add ts v) = set v \<union> set ts"
  by (induction ts arbitrary: v) (auto simp add: set_vocab_add)

lemma distinct_fold_vocab_add: "distinct v \<Longrightarrow> distinct (fold vocab_add ts v)"
  by (induction ts arbitrary: v) (simp_all add: distinct_vocab_add)

lemma fold_add_token:
  "fold (add_token c) ts m =
     m\<lparr>vocab := fold vocab_add ts (vocab m),
       wordCounts := (wordCounts m)(c := fold (\<lambda>t wc. count_token wc t) ts (wordCounts m c))\<rparr>"
proof (induction ts arbitrary: m)
  case Nil
  then show ?case by simp
next
  case (Cons t ts)
  have "fold (add_token c) (t # ts) m = fold (add_token c) ts (add_token c t m)" by simp
  also have "\<dots> = (add_token c t m)\<lparr>vocab := fold vocab_add ts (vocab (add_token c t m)),
       wordCounts := (wordCounts (add_token c t m))
          (c := fold (\<lambda>t wc. count_token wc t) ts (wordCounts (add_token c t m) c))\<rparr>"
    by (rule Cons.IH)
  also have "\<dots> = m\<lparr>vocab := fold vocab_add (t # ts) (vocab m),
       wordCounts := (wordCounts m)(c := fold (\<lambda>t wc. count_token wc t) (t # ts) (wordCounts m c))\<rparr>"
    by (simp add: add_token_def)
  finally show ?case .
qed

lemma train_doc_learn:
  assumes "category_of (doc_label d) = Some c"
  shows "train_doc m d = Inr (learn c (tokenize (doc_text d)) m)"
  by (cases m) (simp add: train_doc_category [OF assms] fold_add_token learn_def)


lemma trained_Nil: "trained [] m = m"
  by (cases m) (simp add: trained_def class_tokens_def labelled_def all_tokens_def)

lemma trained_Cons:
  assumes "category_of (doc_label d) = Some c"
  shows "trained (d # ds) m = trained ds (learn c (tokenize (doc_text d)) m)"
  using assms
  by (auto simp add: trained_def learn_def class_tokens_def labelled_def all_tokens_def fun_eq_iff)

lemma train_docs_trained:
  assumes "\<forall>d\<in>set docs. \<not> foreign d"
  shows "train_docs m docs = Inr (trained docs m)"
  using assms
proof (induction docs arbitrary: m)
  case Nil
  then show ?case by (simp add: trained_Nil)
next
  case (Cons d ds)
  then obtain c where c: "category_of (doc_label d) = Some c"
    by (auto simp add: foreign_def)
  show ?case using Cons by (simp add: train_doc_learn [OF c] trained_Cons [OF c])
qed


lemma train_trained:
  assumes "\<forall>d\<in>set docs. \<not> foreign d"
  shows "train m docs = Inr (trained docs new_classifier)"
  by (simp add: train_def reset_new_classifier train_docs_trained [OF assms])

lemma map_of_trained:
  "map_of (wordCounts (trained docs new_classifier) c) k =
     (next_count k ^^ count_list (class_tokens c docs) k) None"
  by (simp add: trained_def map_of_fold_count_token new_classifier_def)

lemma distinct_keys_trained:
  "distinct (map fst (wordCounts (trained docs new_classifier) c))"
  by (simp add: trained_def distinct_fold_count_token new_classifier_def)

lemma set_vocab_trained: "set (vocab (trained docs new_classifier)) = set (all_tokens docs)"
  by (simp add: trained_def set_fold_vocab_add new_classifier_def)

lemma distinct_vocab_trained: "distinct (vocab (trained docs new_classifier))"
  by (simp add: trained_def distinct_fold_vocab_add new_classifier_def)

lemma mset_concat_map:
  "mset (concat (map f xs)) = sum_mset (image_mset (\<lambda>x. mset (f x)) (mset xs))"
  by (induction xs) simp_all

lemma mset_labelled: "mset (labelled c docs) = filter_mset (\<lambda>d. category_of (doc_label d) = Some c) (mset docs)"
  by (simp add: labelled_def)

lemma mset_class_tokens:
  "mset docs' = mset docs \<Longrightarrow> mset (class_tokens c docs') = mset (class_tokens c docs)"
  by (simp add: class_tokens_def mset_concat_map mset_labelled)

lemma mset_all_tokens:
  "mset docs' = mset docs \<Longrightarrow> mset (all_tokens docs') = mset (all_tokens docs)"
  by (simp add: all_tokens_def mset_concat_map)

lemma count_list_class_tokens:
  assumes "mset docs' = mset docs"
  shows "count_list (class_tokens c docs') k = count_list (class_tokens c docs) k"
  using mset_class_tokens [OF assms, of c] by (metis count_mset)

lemma length_labelled_perm:
  assumes "mset docs' = mset docs"
  shows "length (labelled c docs') = length (labelled c docs)"
  using assms by (metis mset_labelled size_mset)

lemma same_state_trained:
  assumes "mset docs' = mset docs"
  shows "same_state (trained docs new_classifier) (trained docs' new_classifier)"
proof -
  have "set (all_tokens docs') = set (all_tokens docs)"
    using mset_all_tokens [OF assms] by (metis set_mset_mset)
  moreover have "length docs' = length docs" using assms by (metis size_mset)
  ultimately show ?thesis
    unfolding same_state_def
    by (auto simp add: fun_eq_iff map_of_trained count_list_class_tokens [OF assms]
        set_vocab_trained) (simp_all add: trained_def length_labelled_perm [OF assms])
qed

lemma foldl_js_add:
  "foldl js_add a vs =
     (if a = NotNum \<or> NotNum \<in> set vs then NotNum else Num (count_of a + sum_list (map count_of vs)))"
proof (induction vs arbitrary: a)
  case Nil
  then show ?case by (cases a) simp_all
next
  case (Cons v vs)
  show ?case by (cases a; cases v) (simp_all add: Cons.IH)
qed

lemma classTotalWords_closed:
  "classTotalWords wc =
     (if NotNum \<in> snd ` set wc then NotNum else Num (sum_list (map (\<lambda>e. count_of (snd e)) wc)))"
  by (simp add: classTotalWords_def foldl_js_add comp_def)

lemma classTotalWords_cong:
  assumes "distinct (map fst xs)" "distinct (map fst ys)" "map_of xs = map_of ys"
  shows "classTotalWords xs = classTotalWords ys"
proof -
  have s: "set xs = set ys" using assms by (simp add: map_of_inject_set)
  have dx: "distinct xs" using assms(1) by (rule distinct_map [THEN iffD1, THEN conjunct1])
  have dy: "distinct ys" using assms(2) by (rule distinct_map [THEN iffD1, THEN conjunct1])
  have "sum_list (map (\<lambda>e. count_of (snd e)) xs) = sum_list (map (\<lambda>e. count_of (snd e)) ys)"
    using dx dy s by (simp add: sum_list_distinct_conv_sum_set)
  then show ?thesis using s by (simp add: classTotalWords_closed)
qed

lemma predict_cong:
  assumes "same_state m m'"
    and "distinct (vocab m)" "distinct (vocab m')"
    and "\<And>c. distinct (map fst (wordCounts m c))" "\<And>c. distinct (map fst (wordCounts m' c))"
  shows "predict m text = predict m' text"
proof -
  have v: "vocabSize m = vocabSize m'"
    using assms(1-3) by (metis distinct_card same_state_def vocabSize_def)
  have w: "map_of (wordCounts m c) = map_of (wordCounts m' c)" for c
    using assms(1) by (simp add: same_state_def)
  have t: "classTotalWords (wordCounts m c) = classTotalWords (wordCounts m' c)" for c
    using classTotalWords_cong [OF assms(4) assms(5) w] .
  have k: "tokenCount (wordCounts m c) k = tokenCount (wordCounts m' c) k" for c k
    by (simp add: tokenCount_def w)
  have tt: "token_term m c k = token_term m' c k" for c k
    by (simp add: token_term_def v t k)
  have p: "prior m c = prior m' c" for c
    using assms(1) by (simp add: prior_def same_state_def)
  have "logProb m ts = logProb m' ts" for ts
    by (rule ext) (simp add: logProb_def tt p)
  then show ?thesis by (simp add: predict_fold)
qed

section \<open>The state and the scores after training\<close>

lemma iter_next_count:
  "(next_count k ^^ n) None =
     (if n = 0 \<or> k = ''__proto__'' then None
      else if k \<in> set prototype_methods then Some NotNum else Some (Num n))"
proof (induction n)
  case 0
  then show ?case by simp
next
  case (Suc n)
  have "(next_count k ^^ Suc n) None = next_count k ((next_count k ^^ n) None)" by simp
  also have "\<dots> = next_count k (if n = 0 \<or> k = ''__proto__'' then None
      else if k \<in> set prototype_methods then Some NotNum else Some (Num n))"
    by (simp only: Suc.IH)
  also have "\<dots> = (if Suc n = 0 \<or> k = ''__proto__'' then None
      else if k \<in> set prototype_methods then Some NotNum else Some (Num (Suc n)))"
    by (simp add: next_count_def)
  finally show ?case .
qed

lemma stored_count:
  assumes "\<not> inherited k"
  shows "map_of (wordCounts (trained docs new_classifier) c) k =
           (if k \<in> set (class_tokens c docs) then Some (Num (count_list (class_tokens c docs) k))
            else None)"
  using assms by (auto simp add: map_of_trained iter_next_count inherited_def count_list_0_iff)

lemma keys_trained:
  assumes "\<forall>t\<in>set (class_tokens c docs). \<not> inherited t"
  shows "fst ` set (wordCounts (trained docs new_classifier) c) = set (class_tokens c docs)"
proof -
  have "dom (map_of (wordCounts (trained docs new_classifier) c)) = set (class_tokens c docs)"
    using assms
    by (auto simp add: dom_def map_of_trained iter_next_count inherited_def count_list_0_iff)
  then show ?thesis by (simp add: dom_map_of_conv_image_fst)
qed

lemma length_labelled_sum:
  assumes "\<forall>d\<in>set docs. \<not> foreign d"
  shows "length (labelled Positive docs) + length (labelled Negative docs) +
         length (labelled Neutral docs) = length docs"
  using assms
proof (induction docs)
  case Nil
  then show ?case by (simp add: labelled_def)
next
  case (Cons d ds)
  then obtain c where "category_of (doc_label d) = Some c" by (auto simp add: foreign_def)
  then show ?case using Cons by (cases c) (simp_all add: labelled_def)
qed

lemma set_class_tokens_subset: "set (class_tokens c docs) \<subseteq> set (all_tokens docs)"
  by (auto simp add: class_tokens_def all_tokens_def labelled_def)

lemma set_all_tokens_classes:
  assumes "\<forall>d\<in>set docs. \<not> foreign d"
  shows "set (all_tokens docs) = (\<Union>c. set (class_tokens c docs))"
proof
  show "set (all_tokens docs) \<subseteq> (\<Union>c. set (class_tokens c docs))"
  proof
    fix t assume "t \<in> set (all_tokens docs)"
    then obtain d where d: "d \<in> set docs" "t \<in> set (tokenize (doc_text d))"
      by (auto simp add: all_tokens_def)
    then obtain c where "category_of (doc_label d) = Some c"
      using assms by (auto simp add: foreign_def)
    then have "t \<in> set (class_tokens c docs)"
      using d by (auto simp add: class_tokens_def labelled_def)
    then show "t \<in> (\<Union>c. set (class_tokens c docs))" by blast
  qed
next
  show "(\<Union>c. set (class_tokens c docs)) \<subseteq> set (all_tokens docs)"
    using set_class_tokens_subset by blast
qed

text \<open>
  Away from the inherited keys the three invariants of the state hold: the category
  counts add up to the document count and, when no token of the corpus names an
  inherited property, every stored value is a positive count and the vocabulary is
  the union of the keys.
\<close>

lemma train_invariant:
  assumes "\<forall>d\<in>set docs. \<not> foreign d"
  shows "\<exists>m'. train m docs = Inr m' \<and>
           classCounts m' Positive + classCounts m' Negative + classCounts m' Neutral = totalDocs m' \<and>
           ((\<forall>t\<in>set (all_tokens docs). \<not> inherited t) \<longrightarrow>
              (\<forall>c k v. map_of (wordCounts m' c) k = Some v \<longrightarrow> (\<exists>n. v = Num n \<and> 0 < n)) \<and>
              set (vocab m') = (\<Union>c. fst ` set (wordCounts m' c)))"
proof -
  let ?m = "trained docs new_classifier"
  have a: "classCounts ?m Positive + classCounts ?m Negative + classCounts ?m Neutral = totalDocs ?m"
    using length_labelled_sum [OF assms] by (simp add: trained_def new_classifier_def)
  have b: "\<exists>n. v = Num n \<and> 0 < n"
    if "\<forall>t\<in>set (all_tokens docs). \<not> inherited t" "map_of (wordCounts ?m c) k = Some v" for c k v
  proof -
    have "count_list (class_tokens c docs) k \<noteq> 0 \<and> k \<noteq> ''__proto__''"
      using that(2) by (auto simp add: map_of_trained iter_next_count split: if_splits)
    then have k: "k \<in> set (class_tokens c docs)" by (simp add: count_list_0_iff)
    then have "\<not> inherited k" using that(1) set_class_tokens_subset by blast
    then have "v = Num (count_list (class_tokens c docs) k)"
      using that(2) k by (simp add: stored_count)
    moreover have "0 < count_list (class_tokens c docs) k"
      using k count_list_0_iff [of "class_tokens c docs" k] by arith
    ultimately show ?thesis by blast
  qed
  have c: "set (vocab ?m) = (\<Union>c. fst ` set (wordCounts ?m c))"
    if h: "\<forall>t\<in>set (all_tokens docs). \<not> inherited t"
  proof -
    have "fst ` set (wordCounts ?m c) = set (class_tokens c docs)" for c
      using h set_class_tokens_subset by (intro keys_trained) blast
    then show ?thesis by (simp add: set_vocab_trained set_all_tokens_classes [OF assms])
  qed
  show ?thesis using a b c by (simp add: train_trained [OF assms])
qed


lemma values_trained:
  assumes "\<forall>t\<in>set (class_tokens c docs). \<not> inherited t"
    and "e \<in> set (wordCounts (trained docs new_classifier) c)"
  shows "snd e = Num (count_list (class_tokens c docs) (fst e))"
proof -
  let ?wc = "wordCounts (trained docs new_classifier) c"
  have "map_of ?wc (fst e) = Some (snd e)"
    using assms(2) distinct_keys_trained [of docs c] by simp
  moreover have "fst e \<in> set (class_tokens c docs)"
    using assms keys_trained [OF assms(1)] by blast
  ultimately show ?thesis using assms(1) by (simp add: stored_count)
qed

lemma classTotalWords_trained:
  assumes "\<forall>t\<in>set (class_tokens c docs). \<not> inherited t"
  shows "classTotalWords (wordCounts (trained docs new_classifier) c) =
           Num (length (class_tokens c docs))"
proof -
  let ?wc = "wordCounts (trained docs new_classifier) c"
  let ?ts = "class_tokens c docs"
  have v: "snd e = Num (count_list ?ts (fst e))" if "e \<in> set ?wc" for e
    using values_trained [OF assms that] .
  have nn: "NotNum \<notin> snd ` set ?wc" using v by force
  have "sum_list (map (\<lambda>e. count_of (snd e)) ?wc) = sum_list (map (count_list ?ts) (map fst ?wc))"
    using v by (simp add: comp_def cong: map_cong)
  also have "\<dots> = sum (count_list ?ts) (set (map fst ?wc))"
    by (intro sum_list_distinct_conv_sum_set distinct_keys_trained)
  also have "\<dots> = sum (count_list ?ts) (set ?ts)"
    using keys_trained [OF assms] by simp
  also have "\<dots> = length ?ts" by (simp add: sum_count_set)
  finally show ?thesis using nn by (simp add: classTotalWords_closed)
qed

lemma tokenCount_trained:
  assumes "\<not> inherited t"
  shows "tokenCount (wordCounts (trained docs new_classifier) c) t =
           Num (count_list (class_tokens c docs) t)"
  using assms by (simp add: tokenCount_def stored_count)

lemma vocabSize_trained: "vocabSize (trained docs new_classifier) = card (set (all_tokens docs))"
  using distinct_vocab_trained [of docs]
  by (simp add: vocabSize_def distinct_card set_vocab_trained [symmetric])

lemma Math_log_pos: "0 < r \<Longrightarrow> Math_log (Fin r) = Fin (ln r)"
  by simp

lemma token_term_trained:
  assumes "\<forall>t\<in>set (class_tokens c docs). \<not> inherited t" "\<not> inherited t"
    and "all_tokens docs \<noteq> []"
  shows "token_term (trained docs new_classifier) c t =
           Fin (ln ((real (count_list (class_tokens c docs) t) + 1) /
                    (real (length (class_tokens c docs)) + real (card (set (all_tokens docs))))))"
proof -
  let ?n = "count_list (class_tokens c docs) t"
  let ?T = "length (class_tokens c docs)"
  let ?V = "card (set (all_tokens docs))"
  have v: "0 < ?V" using assms(3) by (simp add: card_gt_0_iff)
  then have p: "0 < (real ?n + 1) / (real ?T + real ?V)"
    by (intro divide_pos_pos add_nonneg_pos) simp_all
  have "token_term (trained docs new_classifier) c t =
        Math_log (Fin (real (?n + 1) / real (?T + ?V)))"
    using v assms(3) by (simp add: token_term_def classTotalWords_trained [OF assms(1)]
        tokenCount_trained [OF assms(2)] vocabSize_trained)
  also have "real (?n + 1) / real (?T + ?V) = (real ?n + 1) / (real ?T + real ?V)" by simp
  finally show ?thesis by (simp only: Math_log_pos [OF p])
qed

lemma prior_trained:
  "prior (trained docs new_classifier) c =
     Fin (ln (max (real (length (labelled c docs))) (1 / 10) / max (real (length docs)) 1))"
proof -
  have a: "or_default n (1 / 10) = max (real n) (1 / 10)" for n
    by (cases n) (simp_all add: or_default_def max_def)
  have b: "or_default n 1 = max (real n) 1" for n
    by (cases n) (simp_all add: or_default_def max_def)
  have "0 < max (real (length (labelled c docs))) (1 / 10)" "0 < max (real (length docs)) 1"
    by (simp_all add: less_max_iff_disj)
  then have p: "0 < max (real (length (labelled c docs))) (1 / 10) / max (real (length docs)) 1"
    by (rule divide_pos_pos)
  have "prior (trained docs new_classifier) c =
        Math_log (Fin (max (real (length (labelled c docs))) (1 / 10) / max (real (length docs)) 1))"
    by (simp add: prior_def a b trained_def new_classifier_def)
  then show ?thesis by (simp only: Math_log_pos [OF p])
qed

lemma foldl_js_plus_Fin:
  assumes "\<And>t. t \<in> set ts \<Longrightarrow> f t = Fin (g t)"
  shows "foldl (\<lambda>acc t. js_plus acc (f t)) (Fin a) ts = Fin (a + (\<Sum>t\<leftarrow>ts. g t))"
  using assms
proof (induction ts arbitrary: a)
  case Nil
  then show ?case by simp
next
  case (Cons t ts)
  then show ?case by (simp add: add.assoc)
qed

lemma score_formula_trained:
  assumes "\<forall>t\<in>set (class_tokens c docs). \<not> inherited t" "\<forall>t\<in>set tokens. \<not> inherited t"
    and "tokens = [] \<or> all_tokens docs \<noteq> []"
  shows "logProb (trained docs new_classifier) tokens c = Fin (score_formula docs tokens c)"
proof (cases "tokens = []")
  case True
  then show ?thesis by (simp add: logProb_def prior_trained score_formula_def)
next
  case False
  then have ne: "all_tokens docs \<noteq> []" using assms(3) by simp
  show ?thesis
    unfolding logProb_def prior_trained score_formula_def
    by (rule foldl_js_plus_Fin) (use assms(2) in \<open>simp add: token_term_trained [OF assms(1) _ ne]\<close>)
qed

text \<open>
  Away from the inherited keys and from the empty vocabulary the score is the value of
  the formula: the labels are categories, no token of the corpus or of the text names
  an inherited property, and the vocabulary is not empty unless the text has no token.
\<close>

lemma score_formula_holds:
  assumes "\<forall>d\<in>set docs. \<not> foreign d"
    and "\<forall>t\<in>set (all_tokens docs). \<not> inherited t" "\<forall>t\<in>set (tokenize text). \<not> inherited t"
    and "tokenize text = [] \<or> all_tokens docs \<noteq> []"
  shows "\<exists>m'. train m docs = Inr m' \<and>
           scores (predict m' text) c = Some (Fin (score_formula docs (tokenize text) c))"
proof -
  have "\<forall>t\<in>set (class_tokens c docs). \<not> inherited t" for c
    using assms(2) set_class_tokens_subset by blast
  then have "logProb (trained docs new_classifier) (tokenize text) c =
        Fin (score_formula docs (tokenize text) c)" for c
    using assms(3,4) by (intro score_formula_trained) auto
  then show ?thesis
    by (cases c) (simp_all add: train_trained [OF assms(1)] predict_fold)
qed

text \<open>
  Under the same conditions the three scores are finite.
\<close>

lemma predict_scores_finite:
  assumes "\<forall>d\<in>set docs. \<not> foreign d"
    and "\<forall>t\<in>set (all_tokens docs). \<not> inherited t" "\<forall>t\<in>set (tokenize text). \<not> inherited t"
    and "tokenize text = [] \<or> all_tokens docs \<noteq> []"
  shows "\<exists>m' a b c. train m docs = Inr m' \<and>
           scores (predict m' text) = [Positive \<mapsto> Fin a, Negative \<mapsto> Fin b, Neutral \<mapsto> Fin c]"
proof -
  have "\<forall>t\<in>set (class_tokens c docs). \<not> inherited t" for c
    using assms(2) set_class_tokens_subset by blast
  then have "logProb (trained docs new_classifier) (tokenize text) c =
        Fin (score_formula docs (tokenize text) c)" for c
    using assms(3,4) by (intro score_formula_trained) auto
  then have "scores (predict (trained docs new_classifier) text) =
        [Positive \<mapsto> Fin (score_formula docs (tokenize text) Positive),
         Negative \<mapsto> Fin (score_formula docs (tokenize text) Negative),
         Neutral \<mapsto> Fin (score_formula docs (tokenize text) Neutral)]"
    by (simp add: predict_fold)
  then show ?thesis using train_trained [OF assms(1), of m] by blast
qed

section \<open>Relabelling a document\<close>

text \<open>
  The inequality behind the relabelling claim. With \<open>b\<close> the smoothed counts of the
  tokens, \<open>c\<close> their multiplicities in the text and \<open>S\<close> the smoothing denominator, the
  harmonic terms \<open>c b / (c + b)\<close> add up to at most \<open>L S / (L + S)\<close>, and \<open>ln x \<le> x - 1\<close>
  carries this to the sum of logarithms.
\<close>

lemma frac_le_frac:
  fixes a p q r :: real
  assumes "0 < p" "0 < r" "a * r \<le> q * p"
  shows "a / p \<le> q / r"
proof -
  have "a \<le> q * p / r" using assms(2,3) by (rule mult_imp_le_div_pos)
  then have "a \<le> q / r * p" by simp
  with assms(1) show ?thesis by (rule mult_imp_div_pos_le)
qed

lemma parallel_two:
  fixes x y X Y :: real
  assumes "0 < x" "0 < y" "0 \<le> X" "0 \<le> Y"
  shows "x * y / (x + y) + X * Y / (X + Y) \<le> (x + X) * (y + Y) / ((x + X) + (y + Y))"
proof (cases "X + Y = 0")
  case True
  then have "X = 0" "Y = 0" using assms(3,4) by linarith+
  then show ?thesis by simp
next
  case False
  then have pXY: "0 < X + Y" using assms(3,4) by linarith
  have pxy: "0 < x + y" using assms(1,2) by linarith
  have pall: "0 < (x + X) + (y + Y)" using pXY pxy by linarith
  have sq: "(x + X) * (y + Y) * ((x + y) * (X + Y)) -
            (x * y * (X + Y) + X * Y * (x + y)) * ((x + X) + (y + Y)) = (x * Y - X * y)\<^sup>2"
    by (simp add: algebra_simps power2_eq_square)
  have le: "(x * y * (X + Y) + X * Y * (x + y)) * ((x + X) + (y + Y))
            \<le> (x + X) * (y + Y) * ((x + y) * (X + Y))"
    using sq zero_le_power2 [of "x * Y - X * y"] by linarith
  have "x * y / (x + y) + X * Y / (X + Y) = (x * y * (X + Y) + X * Y * (x + y)) / ((x + y) * (X + Y))"
    using pxy pXY by (simp add: add_frac_eq)
  also have "\<dots> \<le> (x + X) * (y + Y) / ((x + X) + (y + Y))"
    using pxy pXY pall le by (intro frac_le_frac) simp_all
  finally show ?thesis .
qed

lemma parallel_sum:
  fixes b c :: "'a \<Rightarrow> real"
  assumes "finite A" "\<And>t. t \<in> A \<Longrightarrow> 0 < b t \<and> 0 < c t"
  shows "(\<Sum>t\<in>A. c t * b t / (c t + b t)) \<le> (\<Sum>t\<in>A. c t) * (\<Sum>t\<in>A. b t) / ((\<Sum>t\<in>A. c t) + (\<Sum>t\<in>A. b t))"
  using assms
proof (induction A rule: finite_induct)
  case empty
  then show ?case by simp
next
  case (insert t A)
  have nb: "0 \<le> (\<Sum>t\<in>A. b t)" using insert.prems by (intro sum_nonneg) (simp add: less_imp_le)
  have nc: "0 \<le> (\<Sum>t\<in>A. c t)" using insert.prems by (intro sum_nonneg) (simp add: less_imp_le)
  have ih: "(\<Sum>t\<in>A. c t * b t / (c t + b t)) \<le> (\<Sum>t\<in>A. c t) * (\<Sum>t\<in>A. b t) / ((\<Sum>t\<in>A. c t) + (\<Sum>t\<in>A. b t))"
    using insert.IH insert.prems by simp
  have "(\<Sum>t\<in>insert t A. c t * b t / (c t + b t)) = c t * b t / (c t + b t) + (\<Sum>t\<in>A. c t * b t / (c t + b t))"
    using insert.hyps by simp
  also have "\<dots> \<le> c t * b t / (c t + b t) + (\<Sum>t\<in>A. c t) * (\<Sum>t\<in>A. b t) / ((\<Sum>t\<in>A. c t) + (\<Sum>t\<in>A. b t))"
    using ih by simp
  also have "\<dots> \<le> (c t + (\<Sum>t\<in>A. c t)) * (b t + (\<Sum>t\<in>A. b t)) / ((c t + (\<Sum>t\<in>A. c t)) + (b t + (\<Sum>t\<in>A. b t)))"
    using insert.prems nb nc by (intro parallel_two) simp_all
  also have "\<dots> = (\<Sum>t\<in>insert t A. c t) * (\<Sum>t\<in>insert t A. b t) / ((\<Sum>t\<in>insert t A. c t) + (\<Sum>t\<in>insert t A. b t))"
    using insert.hyps by simp
  finally show ?case .
qed


lemma sum_list_by_count:
  fixes f :: "'a \<Rightarrow> real"
  shows "(\<Sum>x\<leftarrow>xs. f x) = (\<Sum>x\<in>set xs. real (count_list xs x) * f x)"
proof (induction xs)
  case Nil
  then show ?case by simp
next
  case (Cons x xs)
  have "(\<Sum>y\<in>set (x # xs). real (count_list (x # xs) y) * f y) =
        (\<Sum>y\<in>insert x (set xs). real (count_list xs y) * f y + (if y = x then f y else 0))"
    by (intro sum.cong) (auto simp add: algebra_simps)
  also have "\<dots> = (\<Sum>y\<in>insert x (set xs). real (count_list xs y) * f y) +
                   (\<Sum>y\<in>insert x (set xs). if y = x then f y else 0)"
    by (simp add: sum.distrib)
  also have "(\<Sum>y\<in>insert x (set xs). if y = x then f y else 0) = f x"
    by simp
  also have "(\<Sum>y\<in>insert x (set xs). real (count_list xs y) * f y) =
             (\<Sum>y\<in>set xs. real (count_list xs y) * f y)"
    by (cases "x \<in> set xs") (simp_all add: insert_absorb)
  finally show ?case using Cons.IH by simp
qed

lemma diff_over_self:
  fixes x y :: real
  shows "y \<noteq> 0 \<Longrightarrow> (x - y) / y = x / y - 1"
  by (simp add: diff_divide_distrib)

lemma quotient_of_quotients:
  fixes p q r s :: real
  shows "(p / q) / (r / s) = s / q * (p / r)"
  by simp

lemma sum_list_scaled_minus_one:
  fixes g :: "'a \<Rightarrow> real"
  shows "(\<Sum>t\<leftarrow>ts. k * g t - 1) = k * (\<Sum>t\<leftarrow>ts. g t) - real (length ts)"
  by (induction ts) (simp_all add: algebra_simps)

lemma likelihood_monotone:
  fixes a :: "'a \<Rightarrow> nat" and ts :: "'a list" and T V :: nat
  assumes "(\<Sum>t\<in>set ts. a t) + card (set ts) \<le> T + V"
  shows "(\<Sum>t\<leftarrow>ts. ln ((real (a t) + 1) / (real T + real V)))
         \<le> (\<Sum>t\<leftarrow>ts. ln ((real (a t + count_list ts t) + 1) / (real (T + length ts) + real V)))"
proof (cases "ts = []")
  case True
  then show ?thesis by simp
next
  case False
  define S where "S = real T + real V"
  define L where "L = real (length ts)"
  define b where "b t = real (a t) + 1" for t
  define c where "c t = real (count_list ts t)" for t
  define B where "B = (\<Sum>t\<in>set ts. b t)"
  have Lpos: "0 < L" using False by (simp add: L_def)
  have bpos: "0 < b t" for t by (simp add: b_def add_nonneg_pos)
  have cpos: "0 < c t" if "t \<in> set ts" for t
    using that count_list_0_iff [of ts t] by (simp add: c_def)
  have "B = real ((\<Sum>t\<in>set ts. a t) + card (set ts))"
    by (simp add: B_def b_def sum.distrib)
  then have BS: "B \<le> S" using assms unfolding S_def by (metis of_nat_add of_nat_le_iff)
  have "set ts \<noteq> {}" using False by simp
  then have Bpos: "0 < B" unfolding B_def by (intro sum_pos) (simp_all add: bpos)
  have Spos: "0 < S" using Bpos BS by linarith
  have csum: "(\<Sum>t\<in>set ts. c t) = L"
    unfolding c_def L_def by (simp add: sum_count_set flip: of_nat_sum)
  have per_token: "ln (b t / S) - ln ((b t + c t) / (S + L)) \<le> (S + L) / S * (b t / (b t + c t)) - 1"
    if "t \<in> set ts" for t
  proof -
    have x: "0 < b t / S" using bpos Spos by simp
    have y: "0 < (b t + c t) / (S + L)" using bpos cpos [OF that] Spos Lpos by (simp add: add_pos_pos)
    have "ln (b t / S) - ln ((b t + c t) / (S + L))
          \<le> (b t / S - (b t + c t) / (S + L)) / ((b t + c t) / (S + L))"
      using x y by (rule ln_diff_le)
    also have "\<dots> = (b t / S) / ((b t + c t) / (S + L)) - 1"
      using y by (intro diff_over_self) (simp only: less_irrefl [of "0::real"] neq_iff, simp)
    also have "(b t / S) / ((b t + c t) / (S + L)) = (S + L) / S * (b t / (b t + c t))"
      by (rule quotient_of_quotients)
    finally show ?thesis .
  qed
  have "(\<Sum>t\<leftarrow>ts. ln (b t / S) - ln ((b t + c t) / (S + L)))
        \<le> (\<Sum>t\<leftarrow>ts. (S + L) / S * (b t / (b t + c t)) - 1)"
    by (rule sum_list_mono) (rule per_token)
  also have "\<dots> = (S + L) / S * (\<Sum>t\<leftarrow>ts. b t / (b t + c t)) - L"
    unfolding L_def by (rule sum_list_scaled_minus_one)
  also have "(\<Sum>t\<leftarrow>ts. b t / (b t + c t)) = (\<Sum>t\<in>set ts. c t * b t / (c t + b t))"
    by (simp add: sum_list_by_count c_def add.commute)
  finally have step1: "(\<Sum>t\<leftarrow>ts. ln (b t / S) - ln ((b t + c t) / (S + L)))
        \<le> (S + L) / S * (\<Sum>t\<in>set ts. c t * b t / (c t + b t)) - L" .
  have "(\<Sum>t\<in>set ts. c t * b t / (c t + b t)) \<le> (\<Sum>t\<in>set ts. c t) * (\<Sum>t\<in>set ts. b t) / ((\<Sum>t\<in>set ts. c t) + (\<Sum>t\<in>set ts. b t))"
    by (rule parallel_sum) (simp_all add: bpos cpos)
  also have "\<dots> = L * B / (L + B)" by (simp add: csum B_def)
  also have "\<dots> \<le> L * S / (L + S)"
  proof (rule frac_le_frac)
    show "0 < L + B" using Lpos Bpos by simp
    show "0 < L + S" using Lpos Spos by simp
    have "L * L * B \<le> L * L * S" using BS Lpos by (simp add: mult_left_mono)
    then show "L * B * (L + S) \<le> L * S * (L + B)" by (simp add: algebra_simps)
  qed
  finally have step2: "(\<Sum>t\<in>set ts. c t * b t / (c t + b t)) \<le> L * S / (L + S)" .
  have "(S + L) / S * (\<Sum>t\<in>set ts. c t * b t / (c t + b t)) \<le> (S + L) / S * (L * S / (L + S))"
    using step2 Spos Lpos by (intro mult_left_mono) simp_all
  also have "\<dots> = L"
  proof -
    have "S \<noteq> 0" "L + S \<noteq> 0" "S + L \<noteq> 0" using Spos Lpos by simp_all
    then show ?thesis by (simp add: add.commute)
  qed
  finally have "(\<Sum>t\<leftarrow>ts. ln (b t / S) - ln ((b t + c t) / (S + L))) \<le> 0"
    using step1 by linarith
  then have "(\<Sum>t\<leftarrow>ts. ln (b t / S)) \<le> (\<Sum>t\<leftarrow>ts. ln ((b t + c t) / (S + L)))"
    by (simp add: sum_list_subtractf)
  moreover have "(real (a t + count_list ts t) + 1) / (real (T + length ts) + real V)
        = (b t + c t) / (S + L)" for t
    by (simp add: b_def c_def S_def L_def algebra_simps)
  ultimately show ?thesis by (simp add: b_def [symmetric] S_def [symmetric])
qed

lemma sum_count_le_length:
  assumes "finite A"
  shows "(\<Sum>t\<in>A. count_list xs t) \<le> length xs"
proof -
  have "(\<Sum>t\<in>A. count_list xs t) \<le> (\<Sum>t\<in>A \<union> set xs. count_list xs t)"
    using assms by (intro sum_mono2) simp_all
  also have "\<dots> = length xs" using assms by (intro sum_count_set) simp_all
  finally show ?thesis .
qed

lemma category_of_Positive: "category_of ''Positive'' = Some Positive"
  by (simp add: category_of_def)

text \<open>
  Away from the inherited keys the relabelling claim holds: when the labels are
  categories and no token of the corpus names an inherited property, relabelling a
  \<open>Negative\<close> document as \<open>Positive\<close> does not lower the \<open>Positive\<close> score of its text,
  and both scores are finite.
\<close>

lemma relabel_monotone:
  assumes neg: "category_of (doc_label D) = Some Negative"
    and valid: "\<forall>d\<in>set (pre @ D # post). \<not> foreign d"
    and plain: "\<forall>t\<in>set (all_tokens (pre @ D # post)). \<not> inherited t"
  shows "\<exists>m1 m2 a b.
           train m (pre @ D # post) = Inr m1 \<and>
           train m (pre @ D\<lparr>doc_label := ''Positive''\<rparr> # post) = Inr m2 \<and>
           scores (predict m1 (doc_text D)) Positive = Some (Fin a) \<and>
           scores (predict m2 (doc_text D)) Positive = Some (Fin b) \<and> a \<le> b"
proof -
  let ?D' = "D\<lparr>doc_label := ''Positive''\<rparr>"
  let ?docs = "pre @ D # post"
  let ?docs' = "pre @ ?D' # post"
  let ?ts = "tokenize (doc_text D)"
  let ?xs = "class_tokens Positive ?docs"
  have valid': "\<forall>d\<in>set ?docs'. \<not> foreign d"
    using valid by (auto simp add: foreign_def category_of_Positive)
  have tok: "all_tokens ?docs' = all_tokens ?docs"
    by (simp add: all_tokens_def)
  have plain': "\<forall>t\<in>set (all_tokens ?docs'). \<not> inherited t"
    using plain by (simp only: tok)
  have sub: "set ?ts \<subseteq> set (all_tokens ?docs)"
    by (auto simp add: all_tokens_def)
  have plain_ts: "\<forall>t\<in>set ?ts. \<not> inherited t" using plain sub by blast
  have ne: "?ts = [] \<or> all_tokens ?docs \<noteq> []" using sub by auto
  have ne': "?ts = [] \<or> all_tokens ?docs' \<noteq> []" using ne by (simp only: tok)
  obtain m1 where m1: "train m ?docs = Inr m1"
    "scores (predict m1 (doc_text D)) Positive = Some (Fin (score_formula ?docs ?ts Positive))"
    using score_formula_holds [OF valid plain plain_ts ne, of m Positive] by blast
  obtain m2 where m2: "train m ?docs' = Inr m2"
    "scores (predict m2 (doc_text D)) Positive = Some (Fin (score_formula ?docs' ?ts Positive))"
    using score_formula_holds [OF valid' plain' plain_ts ne', of m Positive] by blast
  have lab: "length (labelled Positive ?docs') = length (labelled Positive ?docs) + 1"
    using neg by (simp add: labelled_def category_of_Positive)
  have ct: "class_tokens Positive ?docs' =
            class_tokens Positive pre @ ?ts @ class_tokens Positive post"
    by (simp add: class_tokens_def labelled_def category_of_Positive)
  have ct0: "?xs = class_tokens Positive pre @ class_tokens Positive post"
    using neg by (simp add: class_tokens_def labelled_def)
  have cnt: "count_list (class_tokens Positive ?docs') t = count_list ?xs t + count_list ?ts t" for t
    by (simp add: ct ct0)
  have len: "length (class_tokens Positive ?docs') = length ?xs + length ?ts"
    by (simp add: ct ct0)
  have prior_le:
    "ln (max (real (length (labelled Positive ?docs))) (1 / 10) / max (real (length ?docs)) 1)
     \<le> ln (max (real (length (labelled Positive ?docs'))) (1 / 10) / max (real (length ?docs')) 1)"
  proof -
    let ?n = "max (real (length (labelled Positive ?docs))) (1 / 10)"
    let ?n' = "max (real (length (labelled Positive ?docs'))) (1 / 10)"
    let ?N = "max (real (length ?docs)) 1"
    have p: "0 < ?n" "0 < ?N" by (simp_all add: less_max_iff_disj)
    have "?n \<le> ?n'" by (simp add: lab max_def)
    then have le: "?n / ?N \<le> ?n' / ?N" using p(2) by (intro divide_right_mono) simp_all
    have pos: "0 < ?n / ?N" using p by (rule divide_pos_pos)
    have "ln (?n / ?N) \<le> ln (?n' / ?N)" using pos le by (simp only: ln_mono)
    moreover have "length ?docs' = length ?docs" by simp
    ultimately show ?thesis by (simp only:)
  qed
  have bound: "(\<Sum>t\<in>set ?ts. count_list ?xs t) + card (set ?ts)
               \<le> length ?xs + card (set (all_tokens ?docs))"
    using sum_count_le_length [of "set ?ts" ?xs] card_mono [OF _ sub] by simp
  have lik: "(\<Sum>t\<leftarrow>?ts. ln ((real (count_list ?xs t) + 1) /
                 (real (length ?xs) + real (card (set (all_tokens ?docs))))))
             \<le> (\<Sum>t\<leftarrow>?ts. ln ((real (count_list ?xs t + count_list ?ts t) + 1) /
                 (real (length ?xs + length ?ts) + real (card (set (all_tokens ?docs))))))"
    using bound by (rule likelihood_monotone)
  have "score_formula ?docs ?ts Positive \<le> score_formula ?docs' ?ts Positive"
    unfolding score_formula_def cnt len tok using prior_le lik by (rule add_mono)
  then show ?thesis using m1 m2 by blast
qed

section \<open>The claims\<close>

text \<open>
  C1. After \<open>fit\<close> on the empty corpus, \<open>predict("anything")\<close> returns the label
  \<open>Positive\<close>, and the claim has all three scores finite. The label is as claimed; the
  scores are not: the vocabulary and every word count are empty, so the one token
  contributes \<open>Math.log((0 + 1) / (0 + 0)) = Math.log(Infinity) = Infinity\<close> to each
  category, and each of the three scores is \<open>Infinity\<close>. The floors \<open>|| 0.1\<close> and
  \<open>|| 1\<close> protect the prior only.
\<close>

theorem fit_empty_predict_anything:
  "train m [] = Inr new_classifier \<and>
   predict new_classifier (Some ''anything'') =
     \<lparr>label = Positive,
      scores = [Positive \<mapsto> PInf, Negative \<mapsto> PInf, Neutral \<mapsto> PInf]\<rparr>"
  by (simp add: train_empty score_defs tokenize_anything new_classifier_def)

text \<open>
  C2. The claim has \<open>tokenize\<close> equal to: lower-case the text, remove every character
  that is not a letter, a digit or white space, split on runs of white space, discard
  the tokens of length at most 2. The code removes what is outside \<open>[A-Za-z0-9_]\<close> and
  \<open>\s\<close>: it keeps the underscore, which is no letter and no digit, so \<open>good_app\<close> stays
  one token where the claim's steps give \<open>goodapp\<close>; and it removes the letters outside
  ASCII, so the word \<open>caf\<close> followed by U+00E9 loses its last letter.
\<close>

theorem tokenize_keeps_underscore:
  "tokenize (Some ''good_app'') = [''good_app''] \<and>
   tokenize_spec (Some ''good_app'') = [''goodapp''] \<and>
   tokenize (Some ''good_app'') \<noteq> tokenize_spec (Some ''good_app'') \<and>
   tokenize (Some (''caf'' @ [CHR 0xE9])) = [''caf''] \<and>
   tokenize_spec (Some (''caf'' @ [CHR 0xE9])) = [''caf'' @ [CHR 0xE9]]"
  by (simp add: tokenize_def tokenize_spec_def char_defs words_of_goodapp words_of_cafe)

text \<open>
  C2, amended. For every text, missing or not, \<open>tokenize\<close> returns the sequence obtained
  by lower-casing the text, removing every character that is not an ASCII letter, a
  digit, an underscore or white space, splitting on runs of white space and discarding
  the tokens of length at most 2, in the order of occurrence and with duplicates.
\<close>

theorem tokenize_refines_amended: "tokenize text = tokenize_amended text"
proof (cases "text")
  case None
  then show ?thesis
    by (simp add: tokenize_def tokenize_amended_def toLowerCase_def words_of_Nil)
next
  case (Some s)
  have "strip_non_word (toLowerCase s) =
        filter (\<lambda>c. is_ascii_letter c \<or> is_digit c \<or> c = CHR ''_'' \<or> is_space_char c)
          (toLowerCase s)"
    by (simp add: strip_non_word_def word_char_classes)
  then show ?thesis using Some
    by (simp add: tokenize_def tokenize_amended_def split_whitespace_words toLowerCase_def
        words_of_Nil)
qed

text \<open>
  C3. The claim has \<open>fit\<close> complete on a corpus with a document whose label is none of
  the three categories. With the label \<open>Mixed\<close> and the text \<open>great product\<close> the call
  raises a \<open>TypeError\<close>: \<open>this.wordCounts["Mixed"]\<close> is \<open>undefined\<close>, and the first token
  reads a property of it.
\<close>

theorem train_foreign_label_raises:
  "train new_classifier [mixed_doc] = Inl TypeError \<and>
   \<not> (\<exists>m'. train new_classifier [mixed_doc] = Inr m')"
  by (simp add: train_defs mixed_doc_def tokenize_great_product)

text \<open>
  C3, amended. Take a corpus in which no label outside the three categories names a
  property inherited from \<open>Object.prototype\<close>. If every document with such a label has a
  text without tokens, \<open>fit\<close> completes, \<open>NaN\<close> is stored as the document count under each
  such label, and \<open>predict\<close> does not depend on what is stored there. Otherwise \<open>fit\<close>
  raises a \<open>TypeError\<close>.
\<close>

theorem train_foreign_label:
  assumes "\<forall>d\<in>set docs. foreign d \<longrightarrow> \<not> inherited (doc_label d)"
  shows "if \<forall>d\<in>set docs. foreign d \<longrightarrow> tokenize (doc_text d) = []
         then \<exists>m'. train m docs = Inr m' \<and>
                (\<forall>d\<in>set docs. foreign d \<longrightarrow> map_of (otherCounts m') (doc_label d) = Some NaN) \<and>
                (\<forall>x text. predict (m'\<lparr>otherCounts := x\<rparr>) text = predict m' text)
         else train m docs = Inl TypeError"
  using train_docs_foreign [OF assms, of "reset m"]
  by (auto simp add: train_def predict_otherCounts split: if_splits)

theorem train_foreign_label_witness:
  "foreign quiet_doc \<and> foreign mixed_doc \<and>
   \<not> inherited (doc_label quiet_doc) \<and> \<not> inherited (doc_label mixed_doc) \<and>
   tokenize (doc_text quiet_doc) = [] \<and> tokenize (doc_text mixed_doc) \<noteq> [] \<and>
   (\<exists>m'. train new_classifier [quiet_doc] = Inr m' \<and>
         map_of (otherCounts m') ''Mixed'' = Some NaN) \<and>
   train new_classifier [quiet_doc, mixed_doc] = Inl TypeError"
proof -
  have f: "foreign quiet_doc" "foreign mixed_doc"
    by (simp_all add: quiet_doc_def mixed_doc_def foreign_def category_of_def)
  have n: "\<not> inherited (doc_label quiet_doc)" "\<not> inherited (doc_label mixed_doc)"
    by (simp_all add: quiet_doc_def mixed_doc_def inherited_def prototype_methods_def)
  have t: "tokenize (doc_text quiet_doc) = []" "tokenize (doc_text mixed_doc) \<noteq> []"
    by (simp_all add: quiet_doc_def mixed_doc_def tokenize_ok tokenize_great_product)
  have l: "doc_label quiet_doc = ''Mixed''" by (simp add: quiet_doc_def)
  have h0: "\<forall>d\<in>set [quiet_doc]. foreign d \<longrightarrow> \<not> inherited (doc_label d)"
    using n by simp
  have h1: "\<forall>d\<in>set [quiet_doc, mixed_doc]. foreign d \<longrightarrow> \<not> inherited (doc_label d)"
    using n by simp
  from train_foreign_label [OF h0, of new_classifier] t f l
  have a: "\<exists>m'. train new_classifier [quiet_doc] = Inr m' \<and>
                map_of (otherCounts m') ''Mixed'' = Some NaN"
    by auto
  have e2: "\<not> (\<forall>d\<in>set [quiet_doc, mixed_doc]. foreign d \<longrightarrow> tokenize (doc_text d) = [])"
    using f t by simp
  from train_foreign_label [OF h1, of new_classifier] e2
  have b: "train new_classifier [quiet_doc, mixed_doc] = Inl TypeError"
    by (simp only: if_False)
  show ?thesis using f n t a b by blast
qed

text \<open>
  C4. The claim has the score of every category equal to the logarithm of the floored
  prior plus, for each token occurrence, the logarithm of \<open>(count + 1) / (total +
  vocabulary size)\<close>. For the model fitted on the example corpus and the text
  \<open>constructor\<close> that value is \<open>ln (1 / 2) + ln (1 / 9)\<close> in the category \<open>Positive\<close>;
  the code returns \<open>NaN\<close>, because the read of the count finds the function that
  \<open>wordCounts.Positive\<close> inherits under the key \<open>constructor\<close>. Where no token names an
  inherited property and the vocabulary is not empty, the score is the value of the
  formula (\<open>score_formula_holds\<close>).
\<close>

theorem score_of_inherited_key:
  "train m example_corpus = Inr example_model \<and>
   scores (predict example_model (Some ''constructor'')) Positive = Some NaN \<and>
   score_formula example_corpus (tokenize (Some ''constructor'')) Positive =
     ln (1 / 2) + ln (1 / 9)"
proof -
  have "card (set (all_tokens example_corpus)) = 6"
    by (simp add: all_tokens_def example_corpus_def tokenize_example_1 tokenize_example_2)
  then have "score_formula example_corpus [''constructor''] Positive = ln (1 / 2) + ln (1 / 9)"
    by (simp add: score_formula_def)
       (simp add: labelled_def class_tokens_def example_corpus_def category_of_def
          tokenize_example_1)
  then show ?thesis
    by (simp add: train_example score_defs tokenize_constructor example_model_def)
qed

text \<open>
  C5. \<open>predict\<close> goes through the categories in the order \<open>Positive\<close>, \<open>Negative\<close>,
  \<open>Neutral\<close>, from the running best \<open>Neutral\<close> with \<open>-Infinity\<close>, and replaces the running
  best only by a strictly greater score. So on finite scores \<open>a\<close>, \<open>b\<close>, \<open>c\<close> the label is
  \<open>Positive\<close> when \<open>a\<close> is at least \<open>b\<close> and \<open>c\<close>, else \<open>Negative\<close> when \<open>b\<close> is at least
  \<open>c\<close>, else \<open>Neutral\<close>: a tie goes to the category evaluated first, and three equal
  finite scores give \<open>Positive\<close>.
\<close>

theorem predict_selection:
  "label (predict m text) =
     fst (foldl (running_best (logProb m (tokenize text))) (Neutral, NInf)
            [Positive, Negative, Neutral]) \<and>
   (\<forall>a b c. logProb m (tokenize text) Positive = Fin a \<and>
            logProb m (tokenize text) Negative = Fin b \<and>
            logProb m (tokenize text) Neutral = Fin c \<longrightarrow>
      label (predict m text) =
        (if b \<le> a \<and> c \<le> a then Positive else if c \<le> b then Negative else Neutral)) \<and>
   (\<forall>a. logProb m (tokenize text) Positive = Fin a \<and>
        logProb m (tokenize text) Negative = Fin a \<and>
        logProb m (tokenize text) Neutral = Fin a \<longrightarrow> label (predict m text) = Positive)"
  by (auto simp add: predict_fold running_best_def)

theorem predict_selection_witness:
  "logProb new_classifier (tokenize None) Positive = Fin (ln (1 / 10)) \<and>
   logProb new_classifier (tokenize None) Negative = Fin (ln (1 / 10)) \<and>
   logProb new_classifier (tokenize None) Neutral = Fin (ln (1 / 10)) \<and>
   label (predict new_classifier None) = Positive"
  using predict_selection [of new_classifier None] logProb_new_empty by blast

text \<open>
  C6. The claim has the \<open>Positive\<close> score of a document's own text not decrease when
  the document is relabelled from \<open>Negative\<close> to \<open>Positive\<close> and the model is fitted
  again. For the corpus of the one document \<open>constructor broke\<close> the score is \<open>NaN\<close>
  before and after, and \<open>NaN >= NaN\<close> is false. Where no token of the corpus names an
  inherited property, both scores are finite and the second is at least the first
  (\<open>relabel_monotone\<close>).
\<close>

theorem relabel_score_not_comparable:
  "train m relabel_before = Inr model_before \<and>
   train m relabel_after = Inr model_after \<and>
   scores (predict model_before (Some ''constructor broke'')) Positive = Some NaN \<and>
   scores (predict model_after (Some ''constructor broke'')) Positive = Some NaN \<and>
   \<not> js_greater_equal NaN NaN"
  by (simp add: train_relabel_before train_relabel_after score_defs tokenize_broke
      model_before_def model_after_def)

text \<open>
  C7. The claim has \<open>predict\<close> return three scores that are never \<open>NaN\<close> or infinite,
  whatever the fitted model and the text. On the model fitted on the empty corpus a
  text of unseen words gets the score \<open>Infinity\<close> in all three categories (the division
  by zero of C1). On the model fitted on the example corpus, the unseen word
  \<open>constructor\<close> gets \<open>NaN\<close> in all three: the read \<open>wordCounts[category]["constructor"]\<close>
  finds the function that every object inherits, \<open>tokenCount + 1\<close> is a string, and
  the quotient is \<open>NaN\<close>; no score then exceeds \<open>-Infinity\<close> and the label stays at
  its initial value. Where the vocabulary is not empty and no token names an inherited
  property, the three scores are finite (\<open>predict_scores_finite\<close>).
\<close>

theorem predict_scores_not_finite:
  "train m [] = Inr new_classifier \<and>
   predict new_classifier (Some ''never seen words'') =
     \<lparr>label = Positive,
      scores = [Positive \<mapsto> PInf, Negative \<mapsto> PInf, Neutral \<mapsto> PInf]\<rparr> \<and>
   train m example_corpus = Inr example_model \<and>
   predict example_model (Some ''constructor'') =
     \<lparr>label = Neutral,
      scores = [Positive \<mapsto> NaN, Negative \<mapsto> NaN, Neutral \<mapsto> NaN]\<rparr>"
  by (simp add: train_empty train_example score_defs tokenize_unseen tokenize_constructor
      new_classifier_def example_model_def)

text \<open>
  C8. For a corpus whose labels are all categories, \<open>fit\<close> on the corpus and \<open>fit\<close> on any
  permutation of it reach the same state: the same term frequencies per category, the
  same category document counts, the same vocabulary and the same document count; and
  \<open>predict\<close> returns the same result in both, for every text.
\<close>

theorem train_order_independent:
  assumes "mset docs' = mset docs" and "\<forall>d\<in>set docs. \<not> foreign d"
  shows "\<exists>m1 m2. train m docs = Inr m1 \<and> train m' docs' = Inr m2 \<and> same_state m1 m2 \<and>
           (\<forall>text. predict m1 text = predict m2 text)"
proof -
  have v': "\<forall>d\<in>set docs'. \<not> foreign d" using assms by (metis set_mset_mset)
  have s: "same_state (trained docs new_classifier) (trained docs' new_classifier)"
    using same_state_trained [OF assms(1)] .
  have "predict (trained docs new_classifier) x = predict (trained docs' new_classifier) x"
    for x
    by (rule predict_cong [OF s distinct_vocab_trained distinct_vocab_trained
        distinct_keys_trained distinct_keys_trained])
  then show ?thesis using s by (simp add: train_trained [OF assms(2)] train_trained [OF v'])
qed

theorem train_order_independent_witness:
  "mset (rev example_corpus) = mset example_corpus \<and>
   \<not> foreign (example_corpus ! 0) \<and> \<not> foreign (example_corpus ! 1) \<and>
   (\<exists>m1 m2. train new_classifier example_corpus = Inr m1 \<and>
            train new_classifier (rev example_corpus) = Inr m2 \<and> same_state m1 m2 \<and>
            (\<forall>text. predict m1 text = predict m2 text))"
proof -
  have f: "\<not> foreign (example_corpus ! 0)" "\<not> foreign (example_corpus ! 1)"
    by (simp_all add: example_corpus_def foreign_def category_of_def)
  have v: "\<forall>d\<in>set example_corpus. \<not> foreign d"
    by (simp add: example_corpus_def foreign_def category_of_def)
  have p: "mset (rev example_corpus) = mset example_corpus" by simp
  show ?thesis
    using train_order_independent [OF p v, of new_classifier new_classifier] f p by blast
qed

text \<open>
  C9. The claim has three invariants after \<open>fit\<close> on a corpus of the three categories:
  the category counts add up to the document count, every stored term frequency is a
  non-negative count, and the vocabulary is the union of the keys of the three
  term-frequency objects. After \<open>fit\<close> on the one document \<open>constructor __proto__\<close> with
  the label \<open>Positive\<close>, the value stored under \<open>constructor\<close> is a string, not a count,
  and \<open>__proto__\<close> is in the vocabulary and a key of no term-frequency object. Where no
  token of the corpus names an inherited property, the three invariants hold
  (\<open>train_invariant\<close>).
\<close>

theorem train_inherited_keys:
  "train m proto_corpus = Inr proto_model \<and>
   map_of (wordCounts proto_model Positive) ''constructor'' = Some NotNum \<and>
   ''__proto__'' \<in> set (vocab proto_model) \<and>
   (\<forall>c. map_of (wordCounts proto_model c) ''__proto__'' = None)"
  by (simp add: train_proto) (simp add: proto_model_def)

text \<open>
  C10. A freshly constructed classifier has the state that \<open>fit\<close> on the empty corpus
  leaves, whatever the state before the call: every category count is zero, every
  term-frequency object is empty, the vocabulary is empty and the document count is
  zero; so \<open>predict\<close> gives the same result in both states, for every text.
\<close>

theorem fresh_equals_fit_empty:
  "\<exists>m'. train m [] = Inr m' \<and> m' = new_classifier \<and>
        wordCounts m' c = [] \<and> classCounts m' c = 0 \<and> otherCounts m' = [] \<and>
        vocab m' = [] \<and> totalDocs m' = 0 \<and>
        predict m' text = predict new_classifier text"
  by (simp add: train_empty) (simp add: new_classifier_def)

end
